theory Spec2Isabelle
  imports Complex_Main
begin

section \<open>Hyperparameter tuning notebook: the model\<close>

text \<open>
  The repository is one notebook, \<^verbatim>\<open>hyperparameter_tuning.ipynb\<close>. Its own code is a
  sequence of cells that call numpy, keras and scikit-learn. The first part of this theory
  gives the cells and the operations they use as functions; the second part proves their
  properties. Python floats are read as real numbers throughout: rounding is not
  modelled. The numpy operations and the keras callbacks that the cells use are given by
  their behaviour. Where a cell only hands its data to a library routine whose code is not
  part of the repository and nothing in the cell decides the property (the label encoder,
  the grid search), the routine is written down from the specification of the workflow
  and marked as such.
\<close>

subsection \<open>Arrays\<close>

text \<open>
  A numpy array is its shape together with its elements in row-major (C) order, the order
  in which numpy stores a freshly loaded or computed array. \<open>asize\<close> is numpy's
  \<^verbatim>\<open>a.size\<close>, the product of the dimensions.
\<close>

datatype error = ValueError | IndexError | DataShapeError | ConfigurationError

record 'a ndarray =
  shape :: "nat list"
  data :: "'a list"

definition asize :: "'a ndarray \<Rightarrow> nat" where
  "asize a = prod_list (shape a)"

definition well_formed :: "'a ndarray \<Rightarrow> bool" where
  "well_formed a = (length (data a) = asize a)"

text \<open>
  Row-major offset of a multi-index: for shape \<open>[d0, d1, d2]\<close> and index \<open>[i, r, c]\<close> it is
  \<open>(i * d1 + r) * d2 + c\<close>.
\<close>

fun ravel :: "nat list \<Rightarrow> nat list \<Rightarrow> nat \<Rightarrow> nat" where
  "ravel (d # ds) (i # is) acc = ravel ds is (acc * d + i)"
| "ravel _ _ acc = acc"

fun in_bounds :: "nat list \<Rightarrow> nat list \<Rightarrow> bool" where
  "in_bounds [] [] = True"
| "in_bounds (d # ds) (i # is) = (i < d \<and> in_bounds ds is)"
| "in_bounds _ _ = False"

text \<open>\<^verbatim>\<open>a[i, j, ...]\<close> with one index per dimension; an index out of range raises.\<close>

definition getitem :: "'a ndarray \<Rightarrow> nat list \<Rightarrow> error + 'a" where
  "getitem a idx =
     (if in_bounds (shape a) idx then Inr (data a ! ravel (shape a) idx 0)
      else Inl IndexError)"

text \<open>\<^verbatim>\<open>a[i]\<close>: the \<open>i\<close>-th sample, an array of the remaining dimensions.\<close>

definition sample :: "'a ndarray \<Rightarrow> nat \<Rightarrow> error + 'a ndarray" where
  "sample a i =
     (case shape a of
        [] \<Rightarrow> Inl IndexError
      | n # ds \<Rightarrow>
          if i < n
          then Inr \<lparr>shape = ds, data = take (prod_list ds) (drop (i * prod_list ds) (data a))\<rparr>
          else Inl IndexError)"

text \<open>
  \<^verbatim>\<open>a / 255.0\<close>: numpy divides every element by the scalar and keeps the shape. The
  images are integer arrays; the quotient is a float array.
\<close>

definition true_divide :: "int ndarray \<Rightarrow> real \<Rightarrow> real ndarray" where
  "true_divide a d = \<lparr>shape = shape a, data = map (\<lambda>p. real_of_int p / d) (data a)\<rparr>"

text \<open>
  \<^verbatim>\<open>a.reshape(rows, cols)\<close>: numpy keeps the elements in their order and replaces the
  shape, and raises \<^verbatim>\<open>ValueError\<close> unless the new shape holds exactly \<^verbatim>\<open>a.size\<close>
  elements.
\<close>

definition reshape :: "'a ndarray \<Rightarrow> nat \<Rightarrow> nat \<Rightarrow> error + 'a ndarray" where
  "reshape a rows cols =
     (if asize a = rows * cols then Inr (a\<lparr>shape := [rows, cols]\<rparr>) else Inl ValueError)"

subsection \<open>Data preparation cells\<close>

text \<open>
  \<^verbatim>\<open>
  # normalize the data
  x_train, x_test = x_train / 255.0, x_test / 255.0
  \<close>
\<close>

definition normalize_cell :: "int ndarray \<times> int ndarray \<Rightarrow> real ndarray \<times> real ndarray" where
  "normalize_cell xs = (true_divide (fst xs) 255, true_divide (snd xs) 255)"

text \<open>
  \<^verbatim>\<open>
  # reshape the data into 1D vectors
  x_train = x_train.reshape(60000, 784)
  x_test = x_test.reshape(10000, 784)
  \<close>
  The second statement runs only if the first did not raise.
\<close>

definition reshape_cell :: "'a ndarray \<times> 'a ndarray \<Rightarrow> error + ('a ndarray \<times> 'a ndarray)" where
  "reshape_cell xs =
     (case reshape (fst xs) 60000 784 of
        Inl e \<Rightarrow> Inl e
      | Inr x_train \<Rightarrow>
          (case reshape (snd xs) 10000 784 of
             Inl e \<Rightarrow> Inl e
           | Inr x_test \<Rightarrow> Inr (x_train, x_test)))"

subsection \<open>Learning-rate schedule cells\<close>






subsection \<open>Training with callbacks\<close>


















subsection \<open>Label encoding\<close>

text \<open>
  Modelled from the spec: the one-hot vector of a class label over a known class count
  (section 4.1). The notebook calls \<^verbatim>\<open>keras.utils.to_categorical(y_train, num_classes)\<close>;
  the encoder's code is keras'.
\<close>

definition one_hot :: "nat \<Rightarrow> nat \<Rightarrow> real list" where
  "one_hot class_count label = map (\<lambda>j. if j = label then 1 else 0) [0..<class_count]"

text \<open>
  Modelled from the spec: label encoding maps each integer class label to its one-hot
  vector and fails if a label falls outside the known class range (sections 4.1 and 7).
\<close>

definition to_categorical :: "int list \<Rightarrow> nat \<Rightarrow> error + real list list" where
  "to_categorical y num_classes =
     (if list_all (\<lambda>label. 0 \<le> label \<and> label < int num_classes) y
      then Inr (map (\<lambda>label. one_hot num_classes (nat label)) y)
      else Inl DataShapeError)"

text \<open>
  Modelled from the spec: decoding by argmax (section 8), the index of the first largest
  entry of a vector; an empty vector has none. The notebook never decodes.
\<close>

fun argmax_from :: "real list \<Rightarrow> nat \<Rightarrow> nat \<Rightarrow> real \<Rightarrow> nat" where
  "argmax_from [] i best v = best"
| "argmax_from (x # xs) i best v =
     (if v < x then argmax_from xs (Suc i) i x else argmax_from xs (Suc i) best v)"

definition argmax :: "real list \<Rightarrow> error + nat" where
  "argmax xs = (case xs of [] \<Rightarrow> Inl ValueError | x # rest \<Rightarrow> Inr (argmax_from rest 1 0 x))"

fun decode :: "real list list \<Rightarrow> error + int list" where
  "decode [] = Inr []"
| "decode (row # rows) =
     (case argmax row of
        Inl e \<Rightarrow> Inl e
      | Inr k \<Rightarrow> (case decode rows of Inl e \<Rightarrow> Inl e | Inr ks \<Rightarrow> Inr (int k # ks)))"

text \<open>A one-hot vector: every entry is 0 or 1 and exactly one entry is 1.\<close>

definition is_one_hot :: "real list \<Rightarrow> bool" where
  "is_one_hot v = (list_all (\<lambda>x. x = 0 \<or> x = 1) v \<and> length (filter (\<lambda>x. x = 1) v) = 1)"

subsection \<open>Hyperparameter search\<close>

text \<open>
  A configuration space maps hyperparameter names to candidate values; it is kept as a
  list, which fixes the iteration order of the names and of each candidate set. A
  configuration gives one value to each name.
\<close>

datatype param = IntParam int | StrParam string

type_synonym 'v config_space = "(string \<times> 'v list) list"
type_synonym 'v configuration = "(string \<times> 'v) list"

text \<open>
  \<^verbatim>\<open>
  init_mode = ['glorot_uniform', 'uniform']
  batches = [128, 512]
  epochs = [10, 20]
  param_grid = dict(epochs=epochs, batch_size=batches, init=init_mode)
  \<close>
\<close>

definition param_grid :: "param config_space" where
  "param_grid =
     [(''epochs'', [IntParam 10, IntParam 20]),
      (''batch_size'', [IntParam 128, IntParam 512]),
      (''init'', [StrParam ''glorot_uniform'', StrParam ''uniform''])]"

text \<open>
  Modelled from the spec: the enumeration of the full Cartesian product of the candidate
  sets, in an order fixed by the iteration order of the input (section 4.4). The notebook
  hands \<^verbatim>\<open>param_grid\<close> to scikit-learn's \<^verbatim>\<open>GridSearchCV\<close>, whose code is not in the
  repository. The first name varies slowest.
\<close>

fun enumerate_configs :: "'v config_space \<Rightarrow> 'v configuration list" where
  "enumerate_configs [] = [[]]"
| "enumerate_configs ((name, candidates) # rest) =
     concat (map (\<lambda>v. map (\<lambda>c. (name, v) # c) (enumerate_configs rest)) candidates)"

text \<open>
  A combination of a space: one candidate per name, names in the order of the space.
\<close>

definition is_combination :: "'v configuration \<Rightarrow> 'v config_space \<Rightarrow> bool" where
  "is_combination c config_space =
     list_all2 (\<lambda>chosen entry. fst chosen = fst entry \<and> snd chosen \<in> set (snd entry))
       c config_space"

text \<open>
  Modelled from the spec: the aggregation of the per-fold scores of one configuration to
  their mean and standard deviation (section 4.4). The score of a configuration on a
  held-out fold, which comes from building, training and evaluating a model, is the
  parameter \<open>fold_score\<close>.
\<close>

definition mean :: "real list \<Rightarrow> real" where
  "mean xs = sum_list xs / real (length xs)"

definition std :: "real list \<Rightarrow> real" where
  "std xs = sqrt (sum_list (map (\<lambda>x. (x - mean xs)\<^sup>2) xs) / real (length xs))"

record 'v score_record =
  configuration :: "'v configuration"
  mean_score :: real
  std_score :: real

definition cross_validate ::
  "('v configuration \<Rightarrow> nat \<Rightarrow> real) \<Rightarrow> nat \<Rightarrow> 'v configuration \<Rightarrow> 'v score_record" where
  "cross_validate fold_score k c =
     (let scores = map (fold_score c) [0..<k]
      in \<lparr>configuration = c, mean_score = mean scores, std_score = std scores\<rparr>)"

text \<open>
  Modelled from the spec: \<^verbatim>\<open>search(config_space, dataset, cv_folds)\<close> as far as its score
  table goes (section 4.4): it fails if the space is empty or fewer than two folds are
  asked for, and otherwise holds one score record per enumerated configuration. The
  dataset enters through \<open>fold_score\<close>. The choice of the best row is not part of this
  function.
\<close>

definition search ::
  "('v configuration \<Rightarrow> nat \<Rightarrow> real) \<Rightarrow> 'v config_space \<Rightarrow> int \<Rightarrow> error + 'v score_record list" where
  "search fold_score config_space cv_folds =
     (if config_space = [] \<or> cv_folds < 2 then Inl ConfigurationError
      else Inr (map (cross_validate fold_score (nat cv_folds)) (enumerate_configs config_space)))"

section \<open>Properties\<close>

subsection \<open>Normalization\<close>

lemma true_divide_shape: "shape (true_divide a d) = shape a"
  by (simp add: true_divide_def)

lemma true_divide_length: "length (data (true_divide a d)) = length (data a)"
  by (simp add: true_divide_def)

lemma true_divide_unit:
  assumes "0 \<le> p" and "p \<le> 255"
  shows "0 \<le> real_of_int p / 255 \<and> real_of_int p / 255 \<le> 1"
proof -
  have "real_of_int p \<le> 255" using assms(2) by linarith
  moreover have "0 \<le> real_of_int p" using assms(1) by simp
  ultimately show ?thesis by simp
qed

lemma true_divide_range:
  assumes "\<forall>p \<in> set (data a). 0 \<le> p \<and> p \<le> 255"
  shows "\<forall>v \<in> set (data (true_divide a 255)). 0 \<le> v \<and> v \<le> 1"
  using assms true_divide_unit by (auto simp: true_divide_def)

text \<open>
  C5. For every pair of image arrays whose pixel values lie in \<open>[0, 255]\<close>, the
  normalization cell (division by the fixed maximum 255) yields arrays of the same shape
  and length in which every pixel of every sample lies in \<open>[0, 1]\<close>; the bounds are met,
  pixel 0 going to 0 and pixel 255 to 1.
\<close>

theorem normalize_unit_interval:
  assumes "\<forall>p \<in> set (data x_train). 0 \<le> p \<and> p \<le> 255"
    and "\<forall>p \<in> set (data x_test). 0 \<le> p \<and> p \<le> 255"
  shows "(\<forall>v \<in> set (data (fst (normalize_cell (x_train, x_test)))). 0 \<le> v \<and> v \<le> 1)
    \<and> (\<forall>v \<in> set (data (snd (normalize_cell (x_train, x_test)))). 0 \<le> v \<and> v \<le> 1)
    \<and> shape (fst (normalize_cell (x_train, x_test))) = shape x_train
    \<and> shape (snd (normalize_cell (x_train, x_test))) = shape x_test
    \<and> length (data (fst (normalize_cell (x_train, x_test)))) = length (data x_train)
    \<and> length (data (snd (normalize_cell (x_train, x_test)))) = length (data x_test)
    \<and> data (true_divide \<lparr>shape = [2], data = [0, 255]\<rparr> 255) = [0, 1]"
proof -
  have "\<forall>v \<in> set (data (true_divide x_train 255)). 0 \<le> v \<and> v \<le> 1"
    using assms(1) by (rule true_divide_range)
  moreover have "\<forall>v \<in> set (data (true_divide x_test 255)). 0 \<le> v \<and> v \<le> 1"
    using assms(2) by (rule true_divide_range)
  moreover have "data (true_divide \<lparr>shape = [2], data = [0, 255]\<rparr> 255) = [0, 1]"
    by (simp add: true_divide_def)
  ultimately show ?thesis
    by (simp add: normalize_cell_def true_divide_shape true_divide_length)
qed

theorem normalize_unit_interval_witness:
  "data (fst (normalize_cell (\<lparr>shape = [1, 2, 2], data = [0, 51, 102, 255]\<rparr>,
                         \<lparr>shape = [1, 1, 2], data = [255, 0]\<rparr>))) = [0, 1/5, 2/5, 1]
   \<and> list_all (\<lambda>v. 0 \<le> v \<and> v \<le> 1)
        (data (fst (normalize_cell (\<lparr>shape = [1, 2, 2], data = [0, 51, 102, 255]\<rparr>,
                               \<lparr>shape = [1, 1, 2], data = [255, 0]\<rparr>))))
   \<and> list_all (\<lambda>v. 0 \<le> v \<and> v \<le> 1)
        (data (snd (normalize_cell (\<lparr>shape = [1, 2, 2], data = [0, 51, 102, 255]\<rparr>,
                               \<lparr>shape = [1, 1, 2], data = [255, 0]\<rparr>))))"
proof -
  let ?a = "\<lparr>shape = [1, 2, 2], data = [0, 51, 102, 255 :: int]\<rparr>"
  let ?b = "\<lparr>shape = [1, 1, 2], data = [255, 0 :: int]\<rparr>"
  have ha: "\<forall>p \<in> set (data ?a). 0 \<le> p \<and> p \<le> 255" by simp
  have hb: "\<forall>p \<in> set (data ?b). 0 \<le> p \<and> p \<le> 255" by simp
  have "data (fst (normalize_cell (?a, ?b))) = [0, 1/5, 2/5, 1]"
    by (simp add: normalize_cell_def true_divide_def)
  then show ?thesis
    using normalize_unit_interval [OF ha hb] by (simp add: list_all_iff)
qed

subsection \<open>Flattening\<close>

lemma reshape_images:
  assumes "shape x = [n, h, w]"
  shows "reshape x n (h * w) = Inr (x\<lparr>shape := [n, h * w]\<rparr>)"
  using assms by (simp add: reshape_def asize_def mult.assoc)

lemma flat_index_bound:
  fixes r c h w :: nat
  assumes "r < h" and "c < w"
  shows "r * w + c < h * w"
proof -
  have "r * w + c < r * w + w" using assms(2) by simp
  also have "\<dots> = Suc r * w" by simp
  also have "\<dots> \<le> h * w" using assms(1) by (intro mult_le_mono1) simp
  finally show ?thesis .
qed

lemma getitem_flat:
  assumes "shape x = [n, h, w]" and "i < n" and "r < h" and "c < w"
  shows "getitem (x\<lparr>shape := [n, h * w]\<rparr>) [i, r * w + c] = Inr (data x ! ((i * h + r) * w + c))"
    and "getitem x [i, r, c] = Inr (data x ! ((i * h + r) * w + c))"
  using assms flat_index_bound [of r h c w]
  by (simp_all add: getitem_def algebra_simps)

lemma sample_flat:
  assumes "shape x = [n, h, w]" and "i < n"
  shows "sample (x\<lparr>shape := [n, h * w]\<rparr>) i
           = Inr \<lparr>shape = [h * w], data = take (h * w) (drop (i * (h * w)) (data x))\<rparr>"
    and "sample x i
           = Inr \<lparr>shape = [h, w], data = take (h * w) (drop (i * (h * w)) (data x))\<rparr>"
  using assms by (simp_all add: sample_def)

lemma sample_length:
  assumes "length xs = n * m" and "i < n"
  shows "length (take m (drop (i * m) xs)) = m"
proof -
  have "Suc i * m \<le> n * m" using assms(2) by (intro mult_le_mono1) simp
  then show ?thesis using assms(1) by simp
qed

lemma flattened_images:
  assumes "shape x = [n, 28, 28]" and "well_formed x"
  shows "reshape x n 784 = Inr (x\<lparr>shape := [n, 784]\<rparr>)
    \<and> (\<forall>i<n. \<forall>r<28. \<forall>c<28.
          getitem (x\<lparr>shape := [n, 784]\<rparr>) [i, r * 28 + c] = getitem x [i, r, c]
          \<and> getitem x [i, r, c] = Inr (data x ! ((i * 28 + r) * 28 + c)))
    \<and> (\<forall>i<n. \<exists>img vec. sample x i = Inr img \<and> sample (x\<lparr>shape := [n, 784]\<rparr>) i = Inr vec
          \<and> shape img = [28, 28] \<and> shape vec = [784]
          \<and> data vec = data img \<and> length (data vec) = 784)"
proof -
  have len: "length (data x) = n * 784"
    using assms by (simp add: well_formed_def asize_def)
  have "reshape x n (28 * 28) = Inr (x\<lparr>shape := [n, 28 * 28]\<rparr>)"
    using assms(1) by (rule reshape_images)
  moreover have "getitem (x\<lparr>shape := [n, 784]\<rparr>) [i, r * 28 + c] = getitem x [i, r, c]
      \<and> getitem x [i, r, c] = Inr (data x ! ((i * 28 + r) * 28 + c))"
    if "i < n" "r < 28" "c < 28" for i r c
    using getitem_flat [OF assms(1) that] by simp
  moreover have "\<exists>img vec. sample x i = Inr img \<and> sample (x\<lparr>shape := [n, 784]\<rparr>) i = Inr vec
      \<and> shape img = [28, 28] \<and> shape vec = [784]
      \<and> data vec = data img \<and> length (data vec) = 784"
    if "i < n" for i
    using sample_flat [OF assms(1) that] sample_length [OF len that] by simp
  ultimately show ?thesis by simp
qed

text \<open>
  C6. For image arrays of 60000 training and 10000 test samples of 28x28 pixels, the
  reshape cell succeeds and keeps the elements and their order: the element sequence of
  each output equals that of its input (so the total element count is unchanged), pixel
  \<open>(r, c)\<close> of image \<open>i\<close> is element \<open>r * 28 + c\<close> of row \<open>i\<close>, and sample \<open>i\<close> of the output
  is a vector of 784 elements holding the values of sample \<open>i\<close> of the input.
\<close>

theorem reshape_cell_preserves_samples:
  assumes "shape x_train = [60000, 28, 28]" and "well_formed x_train"
    and "shape x_test = [10000, 28, 28]" and "well_formed x_test"
  shows "\<exists>y_train y_test. reshape_cell (x_train, x_test) = Inr (y_train, y_test)
    \<and> shape y_train = [60000, 784] \<and> shape y_test = [10000, 784]
    \<and> data y_train = data x_train \<and> data y_test = data x_test
    \<and> asize y_train = asize x_train \<and> asize y_test = asize x_test
    \<and> (\<forall>i<60000. \<forall>r<28. \<forall>c<28. getitem y_train [i, r * 28 + c] = getitem x_train [i, r, c]
          \<and> getitem x_train [i, r, c] = Inr (data x_train ! ((i * 28 + r) * 28 + c)))
    \<and> (\<forall>i<10000. \<forall>r<28. \<forall>c<28. getitem y_test [i, r * 28 + c] = getitem x_test [i, r, c]
          \<and> getitem x_test [i, r, c] = Inr (data x_test ! ((i * 28 + r) * 28 + c)))
    \<and> (\<forall>i<60000. \<exists>img vec. sample x_train i = Inr img \<and> sample y_train i = Inr vec
          \<and> shape img = [28, 28] \<and> shape vec = [784]
          \<and> data vec = data img \<and> length (data vec) = 784)
    \<and> (\<forall>i<10000. \<exists>img vec. sample x_test i = Inr img \<and> sample y_test i = Inr vec
          \<and> shape img = [28, 28] \<and> shape vec = [784]
          \<and> data vec = data img \<and> length (data vec) = 784)"
proof -
  let ?y_train = "x_train\<lparr>shape := [60000, 784]\<rparr>"
  let ?y_test = "x_test\<lparr>shape := [10000, 784]\<rparr>"
  note tr = flattened_images [OF assms(1) assms(2)]
  note te = flattened_images [OF assms(3) assms(4)]
  have cell: "reshape_cell (x_train, x_test) = Inr (?y_train, ?y_test)"
    using tr te by (simp add: reshape_cell_def)
  have sizes: "asize ?y_train = asize x_train" "asize ?y_test = asize x_test"
    using assms(1) assms(3) by (simp_all add: asize_def)
  show ?thesis
  proof (intro exI conjI)
    show "reshape_cell (x_train, x_test) = Inr (?y_train, ?y_test)" by (rule cell)
  qed (use tr te sizes in simp_all)
qed

theorem reshape_cell_preserves_samples_witness:
  "reshape_cell (\<lparr>shape = [60000, 28, 28], data = replicate 47040000 (0::real)\<rparr>,
                 \<lparr>shape = [10000, 28, 28], data = replicate 7840000 (0::real)\<rparr>)
     = Inr (\<lparr>shape = [60000, 784], data = replicate 47040000 0\<rparr>,
            \<lparr>shape = [10000, 784], data = replicate 7840000 0\<rparr>)
   \<and> getitem \<lparr>shape = [60000, 784], data = replicate 47040000 (0::real)\<rparr> [59999, 27 * 28 + 27]
       = getitem \<lparr>shape = [60000, 28, 28], data = replicate 47040000 (0::real)\<rparr> [59999, 27, 27]"
proof -
  let ?a = "\<lparr>shape = [60000, 28, 28], data = replicate 47040000 (0::real)\<rparr>"
  let ?b = "\<lparr>shape = [10000, 28, 28], data = replicate 7840000 (0::real)\<rparr>"
  have h1: "shape ?a = [60000, 28, 28]" by simp
  have h2: "well_formed ?a" by (simp add: well_formed_def asize_def)
  have h3: "shape ?b = [10000, 28, 28]" by simp
  have h4: "well_formed ?b" by (simp add: well_formed_def asize_def)
  from reshape_cell_preserves_samples [OF h1 h2 h3 h4]
  obtain y_train y_test where
    cell: "reshape_cell (?a, ?b) = Inr (y_train, y_test)"
    and sh: "shape y_train = [60000, 784]" "shape y_test = [10000, 784]"
    and da: "data y_train = data ?a" "data y_test = data ?b"
    and px: "\<forall>i<60000. \<forall>r<28. \<forall>c<28. getitem y_train [i, r * 28 + c] = getitem ?a [i, r, c]
          \<and> getitem ?a [i, r, c] = Inr (data ?a ! ((i * 28 + r) * 28 + c))"
    by blast
  have yt: "y_train = \<lparr>shape = [60000, 784], data = replicate 47040000 0\<rparr>"
    using sh(1) da(1) by (cases y_train) simp
  have ye: "y_test = \<lparr>shape = [10000, 784], data = replicate 7840000 0\<rparr>"
    using sh(2) da(2) by (cases y_test) simp
  have "getitem y_train [59999, 27 * 28 + 27] = getitem ?a [59999, 27, 27]"
    using px [rule_format, of 59999 27 27] by simp
  then show ?thesis using cell yt ye by simp
qed

text \<open>
  C10 (as amended). The reshape cell succeeds exactly when the training array holds
  60000 * 784 elements and the test array 10000 * 784 elements, whatever their shapes,
  and raises \<^verbatim>\<open>ValueError\<close> for every other element count. For arrays of 28x28 images
  this means exactly 60000 training and 10000 test samples.
\<close>

theorem reshape_cell_succeeds_iff:
  "reshape_cell (x_train, x_test)
     = (if asize x_train = 60000 * 784 \<and> asize x_test = 10000 * 784
        then Inr (x_train\<lparr>shape := [60000, 784]\<rparr>, x_test\<lparr>shape := [10000, 784]\<rparr>)
        else Inl ValueError)
   \<and> (asize \<lparr>shape = [n, 28, 28], data = d\<rparr> = 60000 * 784) = (n = 60000)
   \<and> (asize \<lparr>shape = [n, 28, 28], data = d\<rparr> = 10000 * 784) = (n = 10000)"
  by (simp add: reshape_cell_def reshape_def asize_def)

text \<open>
  The claim as stated fails: 30000 training images of 28x56 pixels (another sample count
  and another image size) hold 60000 * 784 elements, and the cell reshapes them.
\<close>

theorem reshape_cell_other_sample_count:
  "well_formed \<lparr>shape = [30000, 28, 56], data = replicate 47040000 (0::real)\<rparr>
   \<and> well_formed \<lparr>shape = [10000, 28, 28], data = replicate 7840000 (0::real)\<rparr>
   \<and> reshape_cell (\<lparr>shape = [30000, 28, 56], data = replicate 47040000 (0::real)\<rparr>,
                    \<lparr>shape = [10000, 28, 28], data = replicate 7840000 (0::real)\<rparr>)
       = Inr (\<lparr>shape = [60000, 784], data = replicate 47040000 0\<rparr>,
              \<lparr>shape = [10000, 784], data = replicate 7840000 0\<rparr>)"
  by (simp add: reshape_cell_def reshape_def asize_def well_formed_def)

subsection \<open>Learning-rate schedule and History\<close>













subsection \<open>One-hot encoding\<close>

lemma one_hot_split:
  assumes "k < n"
  shows "one_hot n k = replicate k 0 @ 1 # replicate (n - Suc k) 0"
proof (rule nth_equalityI)
  show "length (one_hot n k) = length (replicate k 0 @ 1 # replicate (n - Suc k) (0::real))"
    using assms by (simp add: one_hot_def)
next
  fix i assume "i < length (one_hot n k)"
  then have i: "i < n" by (simp add: one_hot_def)
  show "one_hot n k ! i = (replicate k 0 @ 1 # replicate (n - Suc k) 0) ! i"
  proof (cases "i < k")
    case True
    then show ?thesis using i by (simp add: one_hot_def nth_append)
  next
    case False
    then show ?thesis using i assms
      by (cases "i = k") (auto simp: one_hot_def nth_append nth_Cons')
  qed
qed

lemma argmax_from_skip:
  assumes "x \<le> v"
  shows "argmax_from (replicate m x @ ys) i best v = argmax_from ys (i + m) best v"
  using assms by (induction m arbitrary: i) simp_all

lemma argmax_from_flat:
  assumes "x \<le> v"
  shows "argmax_from (replicate m x) i best v = best"
  using argmax_from_skip [OF assms, of m "[]" i best] by simp

lemma argmax_one_hot:
  assumes "k < n"
  shows "argmax (one_hot n k) = Inr k"
proof (cases k)
  case 0
  then show ?thesis using assms
    by (simp add: one_hot_split argmax_def argmax_from_flat)
next
  case (Suc j)
  have "one_hot n k = 0 # (replicate j 0 @ 1 # replicate (n - Suc k) 0)"
    using assms Suc by (simp add: one_hot_split)
  then show ?thesis using Suc
    by (simp add: argmax_def argmax_from_skip argmax_from_flat)
qed

lemma one_hot_is_one_hot:
  assumes "k < n"
  shows "length (one_hot n k) = n \<and> is_one_hot (one_hot n k)"
  using assms by (auto simp: one_hot_split is_one_hot_def list_all_iff)

lemma all_zero_replicate:
  assumes "list_all (\<lambda>x. x = 0 \<or> x = 1) v" and "filter (\<lambda>x. x = 1) v = []"
  shows "v = replicate (length v) (0::real)"
  using assms by (induction v) (auto split: if_splits)

lemma is_one_hot_split:
  assumes "is_one_hot v"
  shows "\<exists>k < length v. v = one_hot (length v) k"
  using assms
proof (induction v)
  case Nil
  then show ?case by (simp add: is_one_hot_def)
next
  case (Cons x xs)
  show ?case
  proof (cases "x = 1")
    case True
    then have "list_all (\<lambda>x. x = 0 \<or> x = 1) xs" "filter (\<lambda>x. x = 1) xs = []"
      using Cons.prems by (simp_all add: is_one_hot_def)
    then have "xs = replicate (length xs) 0" by (rule all_zero_replicate)
    then have "x # xs = one_hot (length (x # xs)) 0"
      using True by (simp add: one_hot_split)
    then show ?thesis by blast
  next
    case False
    then have x: "x = 0" and xs: "is_one_hot xs"
      using Cons.prems by (auto simp: is_one_hot_def)
    from Cons.IH [OF xs] obtain k where k: "k < length xs" "xs = one_hot (length xs) k" by blast
    have "x # xs = 0 # (replicate k 0 @ 1 # replicate (length xs - Suc k) 0)"
      using x k by (simp add: one_hot_split)
    also have "\<dots> = one_hot (length (x # xs)) (Suc k)"
      using k(1) by (simp add: one_hot_split)
    finally have "x # xs = one_hot (length (x # xs)) (Suc k)" .
    moreover have "Suc k < length (x # xs)" using k(1) by simp
    ultimately show ?thesis by blast
  qed
qed

lemma one_hot_inj:
  assumes "j < n" and "k < n" and "one_hot n j = one_hot n k"
  shows "j = k"
proof -
  have "argmax (one_hot n j) = argmax (one_hot n k)" using assms(3) by simp
  then show ?thesis using assms(1,2) by (simp add: argmax_one_hot)
qed

lemma one_hot_bij:
  "bij_betw (one_hot n) {0..<n} {v. length v = n \<and> is_one_hot v}"
  unfolding bij_betw_def
proof
  show "inj_on (one_hot n) {0..<n}"
    by (rule inj_onI) (auto dest: one_hot_inj)
next
  show "one_hot n ` {0..<n} = {v. length v = n \<and> is_one_hot v}"
  proof (intro equalityI subsetI)
    fix v assume "v \<in> one_hot n ` {0..<n}"
    then show "v \<in> {v. length v = n \<and> is_one_hot v}"
      using one_hot_is_one_hot by auto
  next
    fix v assume "v \<in> {v. length v = n \<and> is_one_hot v}"
    then have "length v = n" "is_one_hot v" by simp_all
    then show "v \<in> one_hot n ` {0..<n}"
      using is_one_hot_split [of v] by auto
  qed
qed

lemma decode_one_hot:
  assumes "\<forall>label \<in> set y. 0 \<le> label \<and> label < int n"
  shows "decode (map (\<lambda>label. one_hot n (nat label)) y) = Inr y"
  using assms
proof (induction y)
  case Nil
  then show ?case by simp
next
  case (Cons l ls)
  then have "nat l < n" by auto
  then have "argmax (one_hot n (nat l)) = Inr (nat l)" by (rule argmax_one_hot)
  then show ?case using Cons by simp
qed

text \<open>
  C4. For every label array whose values all lie in \<open>[0, class_count)\<close>, the encoding
  succeeds, gives one one-hot vector of length \<open>class_count\<close> per label, and decoding
  each vector by argmax recovers the original labels; the encoding of single labels is a
  bijection from the labels below \<open>class_count\<close> onto the one-hot vectors of that length.
\<close>

theorem one_hot_round_trip:
  assumes "\<forall>label \<in> set y. 0 \<le> label \<and> label < int class_count"
  shows "\<exists>encoded. to_categorical y class_count = Inr encoded
      \<and> decode encoded = Inr y
      \<and> length encoded = length y
      \<and> (\<forall>row \<in> set encoded. length row = class_count \<and> is_one_hot row)
      \<and> bij_betw (one_hot class_count) {0..<class_count}
           {v. length v = class_count \<and> is_one_hot v}"
proof -
  have ok: "list_all (\<lambda>label. 0 \<le> label \<and> label < int class_count) y"
    using assms by (simp add: list_all_iff)
  have rows: "\<forall>row \<in> set (map (\<lambda>label. one_hot class_count (nat label)) y).
      length row = class_count \<and> is_one_hot row"
  proof
    fix row assume "row \<in> set (map (\<lambda>label. one_hot class_count (nat label)) y)"
    then obtain l where "l \<in> set y" "row = one_hot class_count (nat l)" by auto
    moreover from this assms have "nat l < class_count" by auto
    ultimately show "length row = class_count \<and> is_one_hot row"
      using one_hot_is_one_hot by simp
  qed
  show ?thesis
    using ok rows decode_one_hot [OF assms] one_hot_bij [of class_count]
    by (simp add: to_categorical_def)
qed

theorem one_hot_round_trip_witness:
  "to_categorical [5, 0, 9] 10
     = Inr [[0,0,0,0,0,1,0,0,0,0], [1,0,0,0,0,0,0,0,0,0], [0,0,0,0,0,0,0,0,0,1]]
   \<and> decode [[0,0,0,0,0,1,0,0,0,0], [1,0,0,0,0,0,0,0,0,0], [0,0,0,0,0,0,0,0,0,1]] = Inr [5, 0, 9]"
proof -
  have h: "\<forall>label \<in> set [5, 0, 9 :: int]. 0 \<le> label \<and> label < int 10" by simp
  have enc: "to_categorical [5, 0, 9] 10
     = Inr [[0,0,0,0,0,1,0,0,0,0], [1,0,0,0,0,0,0,0,0,0], [0,0,0,0,0,0,0,0,0,1]]"
    by (simp add: to_categorical_def one_hot_def upt_rec)
  from one_hot_round_trip [OF h] enc show ?thesis by auto
qed

subsection \<open>Search enumeration\<close>

lemma length_concat_map_map:
  "length (concat (map (\<lambda>x. map (f x) ys) xs)) = length xs * length ys"
  by (induction xs) simp_all

lemma length_enumerate_configs:
  "length (enumerate_configs space) = prod_list (map (\<lambda>entry. length (snd entry)) space)"
proof (induction space)
  case Nil
  show ?case by simp
next
  case (Cons entry rest)
  obtain name candidates where entry: "entry = (name, candidates)" by (cases entry)
  have "length (enumerate_configs (entry # rest))
          = length candidates * length (enumerate_configs rest)"
    unfolding entry by (simp add: length_concat_map_map)
  then show ?case using Cons.IH entry by simp
qed

lemma set_enumerate_configs:
  "set (enumerate_configs space) = {c. is_combination c space}"
proof (induction space)
  case Nil
  show ?case by (auto simp: is_combination_def)
next
  case (Cons entry rest)
  obtain name candidates where entry: "entry = (name, candidates)" by (cases entry)
  have ih: "\<And>c. c \<in> set (enumerate_configs rest) \<longleftrightarrow> is_combination c rest"
    using Cons.IH by auto
  show ?case
  proof (intro equalityI subsetI)
    fix c assume "c \<in> set (enumerate_configs (entry # rest))"
    then obtain v c' where "v \<in> set candidates" "c' \<in> set (enumerate_configs rest)"
      "c = (name, v) # c'"
      unfolding entry by auto
    then show "c \<in> {c. is_combination c (entry # rest)}"
      using ih entry by (simp add: is_combination_def)
  next
    fix c assume "c \<in> {c. is_combination c (entry # rest)}"
    then have "is_combination c (entry # rest)" by simp
    then obtain chosen c' where c: "c = chosen # c'" "fst chosen = name"
      "snd chosen \<in> set candidates" "is_combination c' rest"
      unfolding entry is_combination_def by (auto simp: list_all2_Cons2)
    then have "chosen = (name, snd chosen)" by (cases chosen) simp
    then show "c \<in> set (enumerate_configs (entry # rest))"
      unfolding entry using c ih by force
  qed
qed

lemma distinct_concat_map:
  assumes "distinct xs" and "\<And>x. x \<in> set xs \<Longrightarrow> distinct (f x)"
    and "\<And>x y. x \<in> set xs \<Longrightarrow> y \<in> set xs \<Longrightarrow> x \<noteq> y \<Longrightarrow> set (f x) \<inter> set (f y) = {}"
  shows "distinct (concat (map f xs))"
  using assms by (induction xs) auto

lemma distinct_enumerate_configs:
  fixes space :: "'v config_space"
  assumes "\<forall>entry \<in> set space. distinct (snd entry)"
  shows "distinct (enumerate_configs space)"
  using assms
proof (induction space)
  case Nil
  show ?case by simp
next
  case (Cons entry rest)
  obtain name candidates where entry: "entry = (name, candidates)" by (cases entry)
  have rest: "distinct (enumerate_configs rest)" using Cons by simp
  have cands: "distinct candidates" using Cons.prems entry by simp
  have "distinct (concat (map (\<lambda>v. map (\<lambda>c. (name, v) # c) (enumerate_configs rest)) candidates))"
  proof (rule distinct_concat_map [OF cands])
    fix v :: 'v
    show "distinct (map (\<lambda>c. (name, v) # c) (enumerate_configs rest))"
      using rest by (simp add: distinct_map inj_on_def)
  next
    fix v w :: 'v
    assume "v \<noteq> w"
    then show "set (map (\<lambda>c. (name, v) # c) (enumerate_configs rest))
        \<inter> set (map (\<lambda>c. (name, w) # c) (enumerate_configs rest)) = {}"
      by auto
  qed
  then show ?case unfolding entry by simp
qed

text \<open>
  C3. For every non-empty configuration space and at least two folds, the search returns
  a score table with exactly one record per combination: the records' configurations are
  the enumeration of the space, a function of the space and its iteration order alone;
  they are exactly the combinations of one candidate per name; their number is the
  product of the sizes of the candidate sets; and they are pairwise different when no
  candidate set repeats a value. For a space of two names with candidate sets \<open>A\<close> and
  \<open>B\<close> the table has \<open>|A| * |B|\<close> records.
\<close>

theorem search_exhaustive:
  assumes "config_space \<noteq> []" and "2 \<le> cv_folds"
  shows "(\<exists>table. search fold_score config_space cv_folds = Inr table
      \<and> length table = prod_list (map (\<lambda>entry. length (snd entry)) config_space)
      \<and> map configuration table = enumerate_configs config_space
      \<and> set (map configuration table) = {c. is_combination c config_space}
      \<and> ((\<forall>entry \<in> set config_space. distinct (snd entry))
            \<longrightarrow> distinct (map configuration table)))
    \<and> (\<exists>table. search fold_score [(name_a, A), (name_b, B)] cv_folds = Inr table
      \<and> length table = length A * length B)"
proof -
  let ?table = "map (cross_validate fold_score (nat cv_folds)) (enumerate_configs config_space)"
  have cfg: "map configuration (map (cross_validate fold_score k) cs) = cs" for k cs
    by (induction cs) (simp_all add: cross_validate_def Let_def)
  have "search fold_score config_space cv_folds = Inr ?table"
    using assms by (simp add: search_def)
  moreover have "length ?table = prod_list (map (\<lambda>entry. length (snd entry)) config_space)"
    by (simp add: length_enumerate_configs)
  moreover have "map configuration ?table = enumerate_configs config_space"
    by (rule cfg)
  moreover have "set (map configuration ?table) = {c. is_combination c config_space}"
    by (simp only: cfg set_enumerate_configs)
  moreover have "(\<forall>entry \<in> set config_space. distinct (snd entry))
      \<longrightarrow> distinct (map configuration ?table)"
    by (simp only: cfg) (blast intro: distinct_enumerate_configs)
  ultimately have first: "\<exists>table. search fold_score config_space cv_folds = Inr table
      \<and> length table = prod_list (map (\<lambda>entry. length (snd entry)) config_space)
      \<and> map configuration table = enumerate_configs config_space
      \<and> set (map configuration table) = {c. is_combination c config_space}
      \<and> ((\<forall>entry \<in> set config_space. distinct (snd entry))
            \<longrightarrow> distinct (map configuration table))"
    by blast
  have second: "\<exists>table. search fold_score [(name_a, A), (name_b, B)] cv_folds = Inr table
      \<and> length table = length A * length B"
    using assms(2) length_enumerate_configs [of "[(name_a, A), (name_b, B)]"]
    by (simp add: search_def del: enumerate_configs.simps)
  from first second show ?thesis by blast
qed

theorem search_exhaustive_witness:
  "\<exists>table. search (\<lambda>c fold. 0) param_grid 3 = Inr table
     \<and> length table = 8
     \<and> map configuration table =
        [[(''epochs'', IntParam 10), (''batch_size'', IntParam 128), (''init'', StrParam ''glorot_uniform'')],
         [(''epochs'', IntParam 10), (''batch_size'', IntParam 128), (''init'', StrParam ''uniform'')],
         [(''epochs'', IntParam 10), (''batch_size'', IntParam 512), (''init'', StrParam ''glorot_uniform'')],
         [(''epochs'', IntParam 10), (''batch_size'', IntParam 512), (''init'', StrParam ''uniform'')],
         [(''epochs'', IntParam 20), (''batch_size'', IntParam 128), (''init'', StrParam ''glorot_uniform'')],
         [(''epochs'', IntParam 20), (''batch_size'', IntParam 128), (''init'', StrParam ''uniform'')],
         [(''epochs'', IntParam 20), (''batch_size'', IntParam 512), (''init'', StrParam ''glorot_uniform'')],
         [(''epochs'', IntParam 20), (''batch_size'', IntParam 512), (''init'', StrParam ''uniform'')]]"
proof -
  have h1: "param_grid \<noteq> []" by (simp add: param_grid_def)
  have h2: "(2::int) \<le> 3" by simp
  from search_exhaustive [OF h1 h2, of "\<lambda>c fold. 0"]
  obtain table where t: "search (\<lambda>c fold. 0) param_grid 3 = Inr table"
    "length table = prod_list (map (\<lambda>entry. length (snd entry)) param_grid)"
    "map configuration table = enumerate_configs param_grid"
    by blast
  have "prod_list (map (\<lambda>entry. length (snd entry)) param_grid) = 8"
    by (simp add: param_grid_def)
  moreover have "enumerate_configs param_grid =
        [[(''epochs'', IntParam 10), (''batch_size'', IntParam 128), (''init'', StrParam ''glorot_uniform'')],
         [(''epochs'', IntParam 10), (''batch_size'', IntParam 128), (''init'', StrParam ''uniform'')],
         [(''epochs'', IntParam 10), (''batch_size'', IntParam 512), (''init'', StrParam ''glorot_uniform'')],
         [(''epochs'', IntParam 10), (''batch_size'', IntParam 512), (''init'', StrParam ''uniform'')],
         [(''epochs'', IntParam 20), (''batch_size'', IntParam 128), (''init'', StrParam ''glorot_uniform'')],
         [(''epochs'', IntParam 20), (''batch_size'', IntParam 128), (''init'', StrParam ''uniform'')],
         [(''epochs'', IntParam 20), (''batch_size'', IntParam 512), (''init'', StrParam ''glorot_uniform'')],
         [(''epochs'', IntParam 20), (''batch_size'', IntParam 512), (''init'', StrParam ''uniform'')]]"
    by (simp add: param_grid_def)
  ultimately show ?thesis using t by simp
qed

end
